theory Spec2Isabelle
  imports Complex_Main "HOL-Library.Word"
begin

section \<open>Values shared by the services and the components\<close>

type_synonym byte = "8 word"

text \<open>
  Every exception the modelled code can see.  \<open>NoResponse\<close> is
  \<^verbatim>\<open>new Error("No response from Gemini")\<close>, \<open>NoAudioData\<close> is
  \<^verbatim>\<open>new Error("No audio data returned")\<close>; the others are raised by the
  platform: \<open>RangeError\<close> by a typed-array constructor, \<open>NotSupportedError\<close> by
  \<^verbatim>\<open>createBuffer\<close>, \<open>InvalidCharacterError\<close> by \<^verbatim>\<open>atob\<close>,
  \<open>SyntaxError\<close> by \<^verbatim>\<open>JSON.parse\<close>, \<open>TypeError\<close> by a property read on
  \<^verbatim>\<open>null\<close> or \<^verbatim>\<open>undefined\<close>, \<open>TransportFailure\<close> by a rejected remote
  call, \<open>ReadError\<close> by a failed \<^verbatim>\<open>FileReader\<close>, and \<open>NotAllowedError\<close> and
  \<open>NotFoundError\<close> by \<^verbatim>\<open>getUserMedia\<close>.
\<close>

datatype error =
    RangeError | NotSupportedError | InvalidCharacterError | SyntaxError | TypeError
  | NoResponse | NoAudioData | TransportFailure | ReadError
  | NotAllowedError | NotFoundError

section \<open>Blobs and the transfer encoding\<close>

text \<open>
  A \<^verbatim>\<open>Blob\<close>: its bytes and its MIME type (\<^verbatim>\<open>blob.type\<close>); \<^verbatim>\<open>blob.size\<close> is
  the number of bytes.  \<^verbatim>\<open>new Blob(parts, { type })\<close> concatenates the parts in
  order.
\<close>

record Blob =
  bytes :: "byte list"
  mime :: string

definition blob_size :: "Blob \<Rightarrow> nat" where
  "blob_size b = length (bytes b)"

definition new_Blob :: "Blob list \<Rightarrow> string \<Rightarrow> Blob" where
  "new_Blob parts ty = \<lparr>bytes = concat (map bytes parts), mime = ty\<rparr>"

subsection \<open>Base64, as the platform implements it (RFC 4648, WHATWG forgiving decode)\<close>

text \<open>
  The alphabet: \<open>A-Z\<close> for 0 to 25, \<open>a-z\<close> for 26 to 51, \<open>0-9\<close> for 52 to 61,
  \<open>+\<close> for 62 and \<open>/\<close> for 63.
\<close>

definition enc6 :: "nat \<Rightarrow> char" where
  "enc6 n =
     (if n < 26 then char_of (65 + n)
      else if n < 52 then char_of (97 + (n - 26))
      else if n < 62 then char_of (48 + (n - 52))
      else if n = 62 then CHR ''+''
      else CHR ''/'')"

definition dec6 :: "char \<Rightarrow> nat option" where
  "dec6 c =
     (let k = (of_char c :: nat) in
      if 65 \<le> k \<and> k \<le> 90 then Some (k - 65)
      else if 97 \<le> k \<and> k \<le> 122 then Some (k - 97 + 26)
      else if 48 \<le> k \<and> k \<le> 57 then Some (k - 48 + 52)
      else if k = 43 then Some 62
      else if k = 47 then Some 63
      else None)"

text \<open>Three bytes make four 6-bit groups; a short last group is filled with zero bits.\<close>

fun sextets :: "nat list \<Rightarrow> nat list" where
  "sextets (a # b # c # rest) =
     (a div 4) # ((a mod 4) * 16 + b div 16) # ((b mod 16) * 4 + c div 64) # (c mod 64)
       # sextets rest"
| "sextets [a, b] = [a div 4, (a mod 4) * 16 + b div 16, (b mod 16) * 4]"
| "sextets [a] = [a div 4, (a mod 4) * 16]"
| "sextets [] = []"

definition base64_encode :: "byte list \<Rightarrow> string" where
  "base64_encode bs =
     map enc6 (sextets (map unat bs)) @ replicate ((3 - length bs mod 3) mod 3) (CHR ''='')"

text \<open>
  Four 6-bit groups make three bytes; of a last group of three or two, the bits that do
  not fill a byte are discarded.
\<close>

fun octets :: "nat list \<Rightarrow> nat list" where
  "octets (a # b # c # d # rest) =
     (a * 4 + b div 16) # ((b mod 16) * 16 + c div 4) # ((c mod 4) * 64 + d) # octets rest"
| "octets [a, b, c] = [a * 4 + b div 16, (b mod 16) * 16 + c div 4]"
| "octets [a, b] = [a * 4 + b div 16]"
| "octets [a] = []"
| "octets [] = []"

definition ascii_whitespace :: "char \<Rightarrow> bool" where
  "ascii_whitespace c \<longleftrightarrow> (of_char c :: nat) \<in> {9, 10, 12, 13, 32}"

definition strip_padding :: "string \<Rightarrow> string" where
  "strip_padding d =
     (case rev d of
        x # y # r \<Rightarrow> if x = CHR ''='' \<and> y = CHR ''='' then rev r
                     else if x = CHR ''='' then rev (y # r) else d
      | [x] \<Rightarrow> if x = CHR ''='' then [] else d
      | [] \<Rightarrow> d)"

text \<open>
  \<^verbatim>\<open>atob\<close>: ASCII whitespace is removed; when the length is then a multiple of
  four, one or two trailing \<open>=\<close> are removed; a length of 1 modulo 4 or a character
  outside the alphabet throws \<^verbatim>\<open>InvalidCharacterError\<close>.  The result is a binary
  string, here the list of its character codes.
\<close>

definition atob :: "string \<Rightarrow> error + nat list" where
  "atob data =
     (let d = filter (\<lambda>c. \<not> ascii_whitespace c) data;
          d = (if length d mod 4 = 0 then strip_padding d else d)
      in if length d mod 4 = 1 then Inl InvalidCharacterError
         else case those (map dec6 d) of
                None \<Rightarrow> Inl InvalidCharacterError
              | Some groups \<Rightarrow> Inr (octets groups))"

subsection \<open>App: blobToBase64 (the same helper is repeated in EntryDetail)\<close>

text \<open>
  \<^verbatim>\<open>reader.readAsDataURL(blob)\<close>, as the File API defines it: the result is
  \<^verbatim>\<open>data:<type>;base64,<data>\<close>, for an empty blob too (then with no data after
  the comma), with \<^verbatim>\<open>application/octet-stream\<close> for a blob without a type.
\<close>

definition readAsDataURL :: "Blob \<Rightarrow> string" where
  "readAsDataURL blob =
     ''data:'' @ (if mime blob = [] then ''application/octet-stream'' else mime blob)
       @ '';base64,'' @ base64_encode (bytes blob)"

text \<open>\<^verbatim>\<open>s.split(sep)\<close> for a one-character separator.\<close>

fun split_str :: "char \<Rightarrow> string \<Rightarrow> string list" where
  "split_str sep [] = [[]]"
| "split_str sep (c # cs) =
     (if c = sep then [] # split_str sep cs
      else (case split_str sep cs of
              p # ps \<Rightarrow> (c # p) # ps
            | [] \<Rightarrow> [[c]]))"

text \<open>
  \<open>blobToBase64\<close>.  The reader is the platform's: it either fails
  (\<^verbatim>\<open>reader.onerror = reject\<close>) or loads the data URL, of which the helper
  resolves with \<^verbatim>\<open>base64String.split(',')[1]\<close>: the text between the first and
  the second comma, or \<^verbatim>\<open>undefined\<close> (\<open>None\<close>) when there is no comma.
\<close>

definition blobToBase64 :: "(Blob \<Rightarrow> error + string) \<Rightarrow> Blob \<Rightarrow> error + string option" where
  "blobToBase64 reader blob =
     (case reader blob of
        Inl e \<Rightarrow> Inl e
      | Inr base64String \<Rightarrow>
          Inr (case split_str (CHR '','') base64String of
                 _ # base64Data # _ \<Rightarrow> Some base64Data
               | _ \<Rightarrow> None))"

definition FileReader :: "Blob \<Rightarrow> error + string" where
  "FileReader blob = Inr (readAsDataURL blob)"

subsection \<open>geminiService: decode\<close>

text \<open>
  \<^verbatim>\<open>bytes[i] = binaryString.charCodeAt(i)\<close> for every index: a store into a
  \<^verbatim>\<open>Uint8Array\<close> keeps the value modulo 256.
\<close>

definition decode :: "string \<Rightarrow> error + byte list" where
  "decode base64 =
     (case atob base64 of
        Inl e \<Rightarrow> Inl e
      | Inr binaryString \<Rightarrow> Inr (map of_nat binaryString))"

section \<open>PCM decoding (services/geminiService: decodeAudioData)\<close>

text \<open>
  \<^verbatim>\<open>new Int16Array(data.buffer)\<close>: a view of the whole buffer as 16-bit signed
  integers in ranges byte order (little-endian: element \<open>k\<close> has its low byte at
  offset \<open>2k\<close> and its high byte at offset \<open>2k+1\<close>).  The constructor throws a
  \<^verbatim>\<open>RangeError\<close> when the byte length is not a multiple of the element size.
  The only caller passes the array made by \<open>decode\<close>, whose buffer is exactly its
  bytes, so the buffer is the byte list itself.
\<close>

definition Int16Array :: "byte list \<Rightarrow> error + 16 word list" where
  "Int16Array buffer =
     (if length buffer mod 2 \<noteq> 0 then Inl RangeError
      else Inr (map (\<lambda>k. word_cat (buffer ! (2 * k + 1)) (buffer ! (2 * k)))
                    [0..<length buffer div 2]))"

record AudioBuffer =
  numberOfChannels :: nat
  frames :: nat
  bufferRate :: real
  channelData :: "real list list"

text \<open>
  An \<^verbatim>\<open>AudioContext\<close>, as far as the decoding depends on it: the nominal ranges
  of the implementation.  The Web Audio API requires every implementation to support at
  least 32 channels and the sample rates from 8000 Hz to 96000 Hz, and lets it support
  more.
\<close>

record AudioContext =
  maxChannels :: nat
  minSampleRate :: real
  maxSampleRate :: real

text \<open>
  \<^verbatim>\<open>new AudioContext({ sampleRate })\<close> on a platform with these ranges: it throws
  \<^verbatim>\<open>NotSupportedError\<close> for a rate the platform does not support.
\<close>

definition new_AudioContext :: "AudioContext \<Rightarrow> real \<Rightarrow> error + AudioContext" where
  "new_AudioContext ranges sampleRate =
     (if sampleRate < minSampleRate ranges \<or> maxSampleRate ranges < sampleRate
      then Inl NotSupportedError
      else Inr ranges)"

text \<open>
  \<^verbatim>\<open>ctx.createBuffer(numChannels, frameCount, sampleRate)\<close>.  The length argument
  is an \<^verbatim>\<open>unsigned long\<close>: a fractional frame count is truncated (counts are
  taken below \<open>2^32\<close>, where the conversion does nothing else).  The Web Audio API
  makes the call throw \<^verbatim>\<open>NotSupportedError\<close> when an argument is zero or negative
  or outside its nominal range: more channels than the context supports, or a sample rate
  outside the rates it supports.  A fresh buffer holds silence.
\<close>

definition createBuffer :: "AudioContext \<Rightarrow> nat \<Rightarrow> real \<Rightarrow> real \<Rightarrow> error + AudioBuffer" where
  "createBuffer ctx numChannels frameCount sampleRate =
     (let len = nat \<lfloor>frameCount\<rfloor> in
      if numChannels = 0 \<or> maxChannels ctx < numChannels \<or> len = 0 \<or> sampleRate \<le> 0
         \<or> sampleRate < minSampleRate ctx \<or> maxSampleRate ctx < sampleRate
      then Inl NotSupportedError
      else Inr \<lparr>numberOfChannels = numChannels, frames = len, bufferRate = sampleRate,
                channelData = replicate numChannels (replicate len 0)\<rparr>)"

text \<open>
  The inner loop
  \<^verbatim>\<open>for (let i = 0; i < frameCount; i++) channelData[i] = dataInt16[i * numChannels + channel] / 32768.0\<close>.
  A store past the end of a \<^verbatim>\<open>Float32Array\<close> is dropped.  The quotient of a
  16-bit integer by \<open>2^15\<close> is a binary fraction of at most 16 significant bits, so
  it is stored in a 32-bit float without rounding: the real number is the stored value.
\<close>

function fill_frames ::
  "16 word list \<Rightarrow> nat \<Rightarrow> real \<Rightarrow> nat \<Rightarrow> nat \<Rightarrow> real list \<Rightarrow> real list" where
  "fill_frames dataInt16 numChannels frameCount channel i cd =
     (if real i < frameCount
      then fill_frames dataInt16 numChannels frameCount channel (Suc i)
             (if i < length cd
              then cd[i := real_of_int (sint (dataInt16 ! (i * numChannels + channel))) / 32768]
              else cd)
      else cd)"
  by pat_completeness auto
termination
proof (relation "measure (\<lambda>(d, n, fc, c, i, cd). nat \<lceil>fc\<rceil> - i)")
  show "wf (measure (\<lambda>(d, n, fc, c, i, cd). nat \<lceil>fc\<rceil> - i))"
    by simp
next
  fix dataInt16 :: "16 word list" and numChannels channel i :: nat
    and frameCount :: real and cd :: "real list"
  assume lt: "real i < frameCount"
  have "real i < real_of_int \<lceil>frameCount\<rceil>"
    using lt le_of_int_ceiling [of frameCount] by linarith
  then have "i < nat \<lceil>frameCount\<rceil>"
    by linarith
  then show "((dataInt16, numChannels, frameCount, channel, Suc i,
                if i < length cd
                then cd[i := real_of_int (sint (dataInt16 ! (i * numChannels + channel))) / 32768]
                else cd),
              (dataInt16, numChannels, frameCount, channel, i, cd))
             \<in> measure (\<lambda>(d, n, fc, c, i, cd). nat \<lceil>fc\<rceil> - i)"
    by simp
qed

text \<open>
  The outer loop
  \<^verbatim>\<open>for (let channel = 0; channel < numChannels; channel++)\<close>, each round filling
  \<^verbatim>\<open>buffer.getChannelData(channel)\<close> in place.
\<close>

function fill_channels ::
  "16 word list \<Rightarrow> nat \<Rightarrow> real \<Rightarrow> nat \<Rightarrow> AudioBuffer \<Rightarrow> AudioBuffer" where
  "fill_channels dataInt16 numChannels frameCount channel buffer =
     (if channel < numChannels
      then fill_channels dataInt16 numChannels frameCount (Suc channel)
             (buffer\<lparr>channelData := (channelData buffer)
                [channel := fill_frames dataInt16 numChannels frameCount channel 0
                              (channelData buffer ! channel)]\<rparr>)
      else buffer)"
  by pat_completeness auto
termination
  by (relation "measure (\<lambda>(d, n, fc, c, b). n - c)") auto

definition decodeAudioData ::
  "byte list \<Rightarrow> AudioContext \<Rightarrow> real \<Rightarrow> nat \<Rightarrow> error + AudioBuffer" where
  "decodeAudioData data ctx sampleRate numChannels =
     (case Int16Array data of
        Inl e \<Rightarrow> Inl e
      | Inr dataInt16 \<Rightarrow>
          (let frameCount = real (length dataInt16) / real numChannels in
           case createBuffer ctx numChannels frameCount sampleRate of
             Inl e \<Rightarrow> Inl e
           | Inr buffer \<Rightarrow> Inr (fill_channels dataInt16 numChannels frameCount 0 buffer)))"

section \<open>Text to speech (services/geminiService: playEloquenceTTS)\<close>

text \<open>
  The remote speech call is a parameter: for a text it either rejects or answers with
  \<^verbatim>\<open>response.candidates?.[0]?.content?.parts?.[0]?.inlineData?.data\<close>, which may be
  \<^verbatim>\<open>undefined\<close> (\<open>None\<close>).  The audio ranges of the platform are a parameter too.
  An absent or empty payload is refused (\<^verbatim>\<open>if (!base64Audio) throw\<close>); then a
  context is made for 24 kHz, the payload is decoded at 24 kHz, mono, and the buffer is
  started on the sink.  The \<^verbatim>\<open>catch\<close> logs and throws the error again.  The result
  is the buffer handed to the sink.
\<close>

definition playEloquenceTTS ::
  "(string \<Rightarrow> error + string option) \<Rightarrow> AudioContext \<Rightarrow> string \<Rightarrow> error + AudioBuffer" where
  "playEloquenceTTS generateSpeech ranges text =
     (case generateSpeech text of
        Inl e \<Rightarrow> Inl e
      | Inr None \<Rightarrow> Inl NoAudioData
      | Inr (Some base64Audio) \<Rightarrow>
          if base64Audio = [] then Inl NoAudioData
          else (case new_AudioContext ranges 24000 of
                  Inl e \<Rightarrow> Inl e
                | Inr audioContext \<Rightarrow>
                    (case decode base64Audio of
                       Inl e \<Rightarrow> Inl e
                     | Inr data \<Rightarrow> decodeAudioData data audioContext 24000 1)))"

section \<open>Entry analysis (services/geminiService: processAudioEntry)\<close>

text \<open>
  Values at run time, where the declared types are erased: what \<^verbatim>\<open>JSON.parse\<close>
  returns and what the objects built from it hold.  An object is the list of its
  properties, in order.
\<close>

datatype js =
    JUndefined | JNull | JBool bool | JNum real | JStr string
  | JArr "js list" | JObj "(string \<times> js) list"

type_synonym obj = "(string \<times> js) list"

text \<open>
  A property read \<^verbatim>\<open>o.k\<close> on an object: the value of the property, or
  \<^verbatim>\<open>undefined\<close> when the object has none of that name.
\<close>

definition field :: "obj \<Rightarrow> string \<Rightarrow> js" where
  "field ob k = (case map_of ob k of None \<Rightarrow> JUndefined | Some v \<Rightarrow> v)"

text \<open>
  The same read on any value: it throws a \<^verbatim>\<open>TypeError\<close> on \<^verbatim>\<open>null\<close> and
  \<^verbatim>\<open>undefined\<close>; a boolean, number, string or array has none of the properties the
  code asks for.
\<close>

fun read_prop :: "js \<Rightarrow> string \<Rightarrow> error + js" where
  "read_prop JUndefined k = Inl TypeError"
| "read_prop JNull k = Inl TypeError"
| "read_prop (JObj ob) k = Inr (field ob k)"
| "read_prop v k = Inr JUndefined"

text \<open>
  \<open>processAudioEntry\<close>.  The remote call (\<^verbatim>\<open>ai.models.generateContent\<close>, given the
  audio data and its MIME type) and \<^verbatim>\<open>JSON.parse\<close> are parameters: the call either
  rejects or answers with \<^verbatim>\<open>response.text\<close>, which may be \<^verbatim>\<open>undefined\<close>;
  the parser gives \<open>None\<close> where it throws a \<^verbatim>\<open>SyntaxError\<close>.  The audio data has
  the run-time type of what \<open>blobToBase64\<close> resolved with.  The response schema
  with its \<^verbatim>\<open>required\<close> lists is sent to the service as configuration; the
  function itself reads the eight properties and checks none.  The \<^verbatim>\<open>catch\<close> logs
  and throws the error again.
\<close>

definition processAudioEntry ::
  "(string option \<Rightarrow> string \<Rightarrow> error + string option) \<Rightarrow> (string \<Rightarrow> js option)
     \<Rightarrow> string option \<Rightarrow> string \<Rightarrow> error + obj" where
  "processAudioEntry generateContent JSON_parse audioBase64 mimeType =
     (case generateContent audioBase64 mimeType of
        Inl e \<Rightarrow> Inl e
      | Inr None \<Rightarrow> Inl NoResponse
      | Inr (Some resultText) \<Rightarrow>
          if resultText = [] then Inl NoResponse
          else (case JSON_parse resultText of
                  None \<Rightarrow> Inl SyntaxError
                | Some parsed \<Rightarrow>
                    (case read_prop parsed ''transcription'' of
                       Inl e \<Rightarrow> Inl e
                     | Inr transcription \<Rightarrow>
                         (case (read_prop parsed ''summary'', read_prop parsed ''mood'',
                                read_prop parsed ''tags'', read_prop parsed ''metrics'',
                                read_prop parsed ''deepAnalysis'', read_prop parsed ''suggestions'',
                                read_prop parsed ''eloquenceTip'') of
                            (Inr summary, Inr mood, Inr tags, Inr metrics, Inr deepAnalysis,
                             Inr suggestions, Inr eloquenceTip) \<Rightarrow>
                              Inr [(''transcription'', transcription),
                                   (''analysis'',
                                    JObj [(''summary'', summary),
                                          (''mood'', mood),
                                          (''tags'', tags),
                                          (''metrics'', metrics),
                                          (''deepAnalysis'', deepAnalysis),
                                          (''suggestions'', suggestions),
                                          (''eloquenceTip'', eloquenceTip)])]
                          | _ \<Rightarrow> Inl TypeError))))"

section \<open>The recording component (components/AudioRecorder)\<close>

text \<open>
  The component's state (\<open>isRecording\<close>, \<open>duration\<close> and the refs) together with
  the part of the platform it acts on.  A microphone stream is named by a number, in
  the order \<^verbatim>\<open>getUserMedia\<close> hands streams out; the \<^verbatim>\<open>MediaRecorder\<close>, the
  analyser context and the interval timer created for a stream carry its number.
  \<^item> \<open>pending\<close>: calls of \<^verbatim>\<open>getUserMedia\<close> not yet settled;
  \<^item> \<open>issued\<close>: the number of streams handed out so far;
  \<^item> \<open>liveStreams\<close>: streams whose tracks have not been stopped;
  \<^item> \<open>recording\<close>: recorders started and not stopped;
  \<^item> \<open>stopping\<close>: recorders on which \<^verbatim>\<open>stop()\<close> was called and whose
    \<^verbatim>\<open>stop\<close> event is still to come;
  \<^item> \<open>intervals\<close>: running interval timers;
  \<^item> \<open>completed\<close>: the blobs passed to \<^verbatim>\<open>onRecordingComplete\<close>, oldest first;
  \<^item> \<open>logged\<close>: errors written with \<^verbatim>\<open>console.error\<close>;
  \<^item> \<open>micAlerts\<close>: how often the alert that the microphone cannot be accessed was shown.
\<close>

record Recorder =
  isRecording :: bool
  duration :: nat
  mediaRecorderRef :: "nat option"
  chunksRef :: "Blob list"
  timerRef :: "nat option"
  audioContextRef :: "nat option"
  pending :: nat
  issued :: nat
  liveStreams :: "nat list"
  recording :: "nat list"
  stopping :: "nat list"
  intervals :: "nat list"
  completed :: "Blob list"
  logged :: "error list"
  micAlerts :: nat

definition mounted :: Recorder where
  "mounted = \<lparr>isRecording = False, duration = 0, mediaRecorderRef = None, chunksRef = [],
     timerRef = None, audioContextRef = None, pending = 0, issued = 0, liveStreams = [],
     recording = [], stopping = [], intervals = [], completed = [], logged = [],
     micAlerts = 0\<rparr>"

text \<open>
  \<open>startRecording\<close> from the point where \<^verbatim>\<open>await getUserMedia\<close> settles, with
  an error or with a stream.  The whole body is inside \<^verbatim>\<open>try\<close>, and the
  \<^verbatim>\<open>catch\<close> logs and alerts without throwing again; the first component of the
  result is how the call ends for its caller.
\<close>

definition startRecording :: "error + nat \<Rightarrow> Recorder \<Rightarrow> (error + unit) \<times> Recorder" where
  "startRecording acquired s =
     (case acquired of
        Inl err \<Rightarrow> (Inr (), s\<lparr>logged := logged s @ [err], micAlerts := Suc (micAlerts s)\<rparr>)
      | Inr stream \<Rightarrow>
          (Inr (), s\<lparr>audioContextRef := Some stream,
                      mediaRecorderRef := Some stream,
                      chunksRef := [],
                      recording := stream # recording s,
                      isRecording := True,
                      duration := 0,
                      timerRef := Some stream,
                      intervals := stream # intervals s\<rparr>))"

text \<open>\<^verbatim>\<open>ondataavailable\<close>: a chunk that is not empty is pushed on \<open>chunksRef\<close>.\<close>

definition ondataavailable :: "Blob \<Rightarrow> Recorder \<Rightarrow> Recorder" where
  "ondataavailable e_data s =
     (if blob_size e_data > 0 then s\<lparr>chunksRef := chunksRef s @ [e_data]\<rparr> else s)"

text \<open>
  \<^verbatim>\<open>onstop\<close> of the recorder made for \<open>stream\<close>: the visualizer is stopped, the
  chunks become one \<^verbatim>\<open>audio/webm\<close> blob that is passed to
  \<^verbatim>\<open>onRecordingComplete\<close>, and the tracks of the stream are stopped.
\<close>

definition onstop :: "nat \<Rightarrow> Recorder \<Rightarrow> Recorder" where
  "onstop stream s =
     s\<lparr>audioContextRef := None,
       completed := completed s @ [new_Blob (chunksRef s) ''audio/webm''],
       liveStreams := removeAll stream (liveStreams s)\<rparr>"

text \<open>
  \<open>stopRecording\<close>: guarded by the ref and the flag; \<^verbatim>\<open>stop()\<close> makes the
  recorder inactive and schedules its last \<^verbatim>\<open>dataavailable\<close> and its
  \<^verbatim>\<open>stop\<close> event.
\<close>

definition stopRecording :: "Recorder \<Rightarrow> Recorder" where
  "stopRecording s =
     (case mediaRecorderRef s of
        Some r \<Rightarrow>
          if isRecording s
          then s\<lparr>recording := removeAll r (recording s),
                 stopping := r # stopping s,
                 isRecording := False,
                 intervals := (case timerRef s of
                                 None \<Rightarrow> intervals s
                               | Some t \<Rightarrow> removeAll t (intervals s))\<rparr>
          else s
      | None \<Rightarrow> s)"

text \<open>
  What can happen to the component: a click on the round button
  (\<^verbatim>\<open>onClick={isRecording ? stopRecording : startRecording}\<close>, where
  \<open>startRecording\<close> runs up to its \<^verbatim>\<open>await\<close>), the settling of a pending
  \<^verbatim>\<open>getUserMedia\<close> with a new live stream or with an error, a
  \<^verbatim>\<open>dataavailable\<close> or \<^verbatim>\<open>stop\<close> event of a recorder, and a tick of an interval
  timer.  An event the platform cannot deliver in the state leaves it unchanged.
\<close>

datatype event =
    Click | GrantMic | DenyMic error | DataAvailable nat Blob | Stopped nat | Tick nat

fun step :: "event \<Rightarrow> Recorder \<Rightarrow> Recorder" where
  "step Click s =
     (if isRecording s then stopRecording s else s\<lparr>pending := Suc (pending s)\<rparr>)"
| "step GrantMic s =
     (if pending s = 0 then s
      else snd (startRecording (Inr (issued s))
                  (s\<lparr>pending := pending s - 1, issued := Suc (issued s),
                     liveStreams := issued s # liveStreams s\<rparr>)))"
| "step (DenyMic err) s =
     (if pending s = 0 then s
      else snd (startRecording (Inl err) (s\<lparr>pending := pending s - 1\<rparr>)))"
| "step (DataAvailable r e_data) s =
     (if r \<in> set (recording s) \<or> r \<in> set (stopping s) then ondataavailable e_data s else s)"
| "step (Stopped r) s =
     (if r \<in> set (stopping s) then onstop r (s\<lparr>stopping := removeAll r (stopping s)\<rparr>) else s)"
| "step (Tick t) s =
     (if t \<in> set (intervals s) then s\<lparr>duration := Suc (duration s)\<rparr> else s)"

fun run :: "event list \<Rightarrow> Recorder \<Rightarrow> Recorder" where
  "run [] s = s"
| "run (e # es) s = run es (step e s)"



section \<open>The application (App)\<close>

datatype ViewState = HOME | RECORDING | DETAILS | SEARCH | SETTINGS

text \<open>
  What the platform contributes to one run of \<open>handleRecordingComplete\<close>: the file
  reader, the remote call, the JSON parser, \<^verbatim>\<open>Date.now().toString()\<close>,
  \<^verbatim>\<open>new Date().toISOString()\<close> and \<^verbatim>\<open>URL.createObjectURL\<close>.
\<close>

record platform =
  readBlob :: "Blob \<Rightarrow> error + string"
  generateContent :: "string option \<Rightarrow> string \<Rightarrow> error + string option"
  JSON_parse :: "string \<Rightarrow> js option"
  now :: string
  isoDate :: string
  createObjectURL :: "Blob \<Rightarrow> string"

text \<open>
  The state of \<open>App\<close> that the handler touches.  An entry is a \<open>JournalEntry\<close>
  object; \<open>failures\<close> are the errors logged by the \<^verbatim>\<open>catch\<close>, each followed by
  the alert that the analysis failed.
\<close>

record App =
  view :: ViewState
  entries :: "obj list"
  selectedEntry :: "obj option"
  isProcessing :: bool
  failures :: "error list"

definition handleRecordingComplete :: "platform \<Rightarrow> Blob \<Rightarrow> App \<Rightarrow> App" where
  "handleRecordingComplete p audioBlob s =
     (let s1 = s\<lparr>isProcessing := True\<rparr>;
          newId = now p;
          tempAudioUrl = createObjectURL p audioBlob;
          s2 =
            (case blobToBase64 (readBlob p) audioBlob of
               Inl error \<Rightarrow> s1\<lparr>failures := failures s1 @ [error]\<rparr>
             | Inr base64Audio \<Rightarrow>
                 (let mimeType = (if mime audioBlob = [] then ''audio/webm'' else mime audioBlob)
                  in case processAudioEntry (generateContent p) (JSON_parse p) base64Audio mimeType of
                       Inl error \<Rightarrow> s1\<lparr>failures := failures s1 @ [error]\<rparr>
                     | Inr result \<Rightarrow>
                         (let newEntry =
                                [(''id'', JStr newId),
                                 (''date'', JStr (isoDate p)),
                                 (''transcription'', field result ''transcription''),
                                 (''analysis'', field result ''analysis''),
                                 (''audioUrl'', JStr tempAudioUrl),
                                 (''isProcessing'', JBool False)]
                          in s1\<lparr>entries := newEntry # entries s1,
                                selectedEntry := Some newEntry,
                                view := DETAILS\<rparr>)))
      in s2\<lparr>isProcessing := False\<rparr>)"

text \<open>
  The effect that saves the entries:
  \<^verbatim>\<open>entries.map(({ audioUrl, ...rest }) => rest)\<close> copies every own property of an
  entry except \<open>audioUrl\<close>; the list is handed to \<^verbatim>\<open>JSON.stringify\<close> (a
  parameter) and stored under the key \<^verbatim>\<open>eloquent_journal_entries\<close>.
\<close>

definition rest_without_audioUrl :: "obj \<Rightarrow> obj" where
  "rest_without_audioUrl entry = filter (\<lambda>(k, v). k \<noteq> ''audioUrl'') entry"

definition entriesToSave :: "obj list \<Rightarrow> obj list" where
  "entriesToSave es = map rest_without_audioUrl es"

definition saveEntries ::
  "(js \<Rightarrow> string) \<Rightarrow> obj list \<Rightarrow> (string \<rightharpoonup> string) \<Rightarrow> (string \<rightharpoonup> string)" where
  "saveEntries JSON_stringify es localStorage =
     localStorage(''eloquent_journal_entries'' \<mapsto>
       JSON_stringify (JArr (map JObj (entriesToSave es))))"

section \<open>Playing a tip (components/EntryDetail: handlePlayTTS)\<close>

text \<open>
  The two buttons that call the handler: the one of suggestion \<open>idx\<close>, with
  \<^verbatim>\<open>handlePlayTTS(sug.improved, `sug-${idx}`)\<close>, and the one of the exercise, with
  \<^verbatim>\<open>handlePlayTTS(exerciseTip.exampleImproved, 'improved')\<close>.
\<close>

datatype tts_button = Suggestion nat string | ExampleImproved string

function digits :: "nat \<Rightarrow> string" where
  "digits n =
     (if n < 10 then [char_of (48 + n)]
      else digits (n div 10) @ [char_of (48 + n mod 10)])"
  by pat_completeness auto
termination
  by (relation "measure (\<lambda>n. n)") auto

fun button_id :: "tts_button \<Rightarrow> string" where
  "button_id (Suggestion idx improved) = ''sug-'' @ digits idx"
| "button_id (ExampleImproved exampleImproved) = ''improved''"

fun button_text :: "tts_button \<Rightarrow> string" where
  "button_text (Suggestion idx improved) = improved"
| "button_text (ExampleImproved exampleImproved) = exampleImproved"

text \<open>
  The state \<open>playingTTS\<close>, with the synthesis requests that were issued and have not
  settled (their texts, oldest first), the buffers that were played and the errors that
  were logged, each followed by the alert that the audio cannot be played.
\<close>

record Detail =
  playingTTS :: "string option"
  inFlight :: "string list"
  played :: "AudioBuffer list"
  ttsFailures :: "error list"

definition opened :: Detail where
  "opened = \<lparr>playingTTS = None, inFlight = [], played = [], ttsFailures = []\<rparr>"

text \<open>\<^verbatim>\<open>if (playingTTS)\<close> on a value that is a string or \<^verbatim>\<open>null\<close>.\<close>

fun truthy :: "string option \<Rightarrow> bool" where
  "truthy None = False"
| "truthy (Some str) = (str \<noteq> [])"

text \<open>
  \<open>handlePlayTTS\<close> up to its \<^verbatim>\<open>await\<close>: it returns at once while
  \<open>playingTTS\<close> is set, and otherwise sets it and issues the request.
\<close>

definition handlePlayTTS :: "string \<Rightarrow> string \<Rightarrow> Detail \<Rightarrow> Detail" where
  "handlePlayTTS text ident s =
     (if truthy (playingTTS s) then s
      else s\<lparr>playingTTS := Some ident, inFlight := inFlight s @ [text]\<rparr>)"

text \<open>
  The rest of the handler, when the request settles: the \<^verbatim>\<open>catch\<close> logs and
  alerts, and \<^verbatim>\<open>finally\<close> clears \<open>playingTTS\<close>.
\<close>

definition handlePlayTTS_settled :: "error + AudioBuffer \<Rightarrow> Detail \<Rightarrow> Detail" where
  "handlePlayTTS_settled outcome s =
     (let s1 = (case outcome of
                  Inl e \<Rightarrow> s\<lparr>ttsFailures := ttsFailures s @ [e]\<rparr>
                | Inr buffer \<Rightarrow> s\<lparr>played := played s @ [buffer]\<rparr>)
      in s1\<lparr>playingTTS := None\<rparr>)"

text \<open>
  What can happen: a button is pressed, or the oldest request in flight settles with the
  answer of the remote service, on a platform with the given audio ranges.
\<close>

datatype tts_event = Press tts_button | Settle "error + string option"

fun tts_step :: "AudioContext \<Rightarrow> tts_event \<Rightarrow> Detail \<Rightarrow> Detail" where
  "tts_step ranges (Press b) s = handlePlayTTS (button_text b) (button_id b) s"
| "tts_step ranges (Settle answer) s =
     (case inFlight s of
        [] \<Rightarrow> s
      | text # others \<Rightarrow>
          handlePlayTTS_settled (playEloquenceTTS (\<lambda>t. answer) ranges text)
            (s\<lparr>inFlight := others\<rparr>))"

fun tts_run :: "AudioContext \<Rightarrow> tts_event list \<Rightarrow> Detail \<Rightarrow> Detail" where
  "tts_run ranges [] s = s"
| "tts_run ranges (e # es) s = tts_run ranges es (tts_step ranges e s)"

text \<open>
  The invariant of the handler: either nothing is playing and no request is in flight,
  or \<open>playingTTS\<close> holds a non-empty identifier and exactly one request is in flight.
\<close>

definition tts_guarded :: "Detail \<Rightarrow> bool" where
  "tts_guarded s \<longleftrightarrow>
     (playingTTS s = None \<and> inFlight s = []) \<or>
     (truthy (playingTTS s) \<and> length (inFlight s) = 1)"

section \<open>Concrete platforms for the examples\<close>

text \<open>
  A remote service that answers with the text \<^verbatim>\<open>{}\<close>, and \<^verbatim>\<open>JSON.parse\<close> as far
  as that text needs it: it is the JSON of the object without properties.
\<close>

definition answers_empty_object :: "string option \<Rightarrow> string \<Rightarrow> error + string option" where
  "answers_empty_object audioBase64 mimeType = Inr (Some ''{}'')"

definition parses_empty_object :: "string \<Rightarrow> js option" where
  "parses_empty_object resultText = (if resultText = ''{}'' then Some (JObj []) else None)"

text \<open>A remote service that cannot be reached.\<close>

definition unreachable :: "string option \<Rightarrow> string \<Rightarrow> error + string option" where
  "unreachable audioBase64 mimeType = Inl TransportFailure"

definition object_url :: "Blob \<Rightarrow> string" where
  "object_url blob = ''blob:1''"

definition offline :: platform where
  "offline = \<lparr>readBlob = FileReader, generateContent = unreachable,
     JSON_parse = parses_empty_object, now = ''1700000000000'',
     isoDate = ''2023-11-14T22:13:20.000Z'', createObjectURL = object_url\<rparr>"

text \<open>A serializer that tells an empty list from any other value.\<close>

definition stringify_brackets :: "js \<Rightarrow> string" where
  "stringify_brackets v = (if v = JArr [] then ''[]'' else ''[...]'')"

text \<open>An audio context with exactly the ranges every implementation must support.\<close>

definition standard_context :: AudioContext where
  "standard_context = \<lparr>maxChannels = 32, minSampleRate = 8000, maxSampleRate = 96000\<rparr>"

section \<open>Base64 round trip\<close>

lemma div_bound: "(b::nat) < 256 \<Longrightarrow> b div 16 < 16" "(c::nat) < 256 \<Longrightarrow> c div 64 < 4"
  "(a::nat) < 256 \<Longrightarrow> a div 4 < 64"
  by (simp_all add: less_mult_imp_div_less)

lemma pack_div: "y < k \<Longrightarrow> (x * k + y) div k = (x::nat)"
  by simp

lemma pack_mod: "y < k \<Longrightarrow> (x * k + y) mod k = (y::nat)"
  by simp

lemma sextets_lt: "\<forall>x\<in>set xs. x < 256 \<Longrightarrow> \<forall>s\<in>set (sextets xs). s < 64"
proof (induction xs rule: sextets.induct)
  case (1 a b c rest)
  have "a < 256" "b < 256" "c < 256" using "1.prems" by simp_all
  then have "a div 4 < 64" "b div 16 < 16" "c div 64 < 4" by (simp_all add: div_bound)
  moreover have "a mod 4 < 4" "b mod 16 < 16" "c mod 64 < 64" by simp_all
  ultimately have "a div 4 < 64" "a mod 4 * 16 + b div 16 < 64" "b mod 16 * 4 + c div 64 < 64"
    "c mod 64 < 64" by linarith+
  then show ?case using 1 by simp
next
  case (2 a b)
  then have "a < 256" "b < 256" by simp_all
  then have "a div 4 < 64" "b div 16 < 16" by (simp_all add: div_bound)
  moreover have "a mod 4 < 4" "b mod 16 < 16" by simp_all
  ultimately have "a div 4 < 64" "a mod 4 * 16 + b div 16 < 64" "b mod 16 * 4 < 64"
    by linarith+
  then show ?case by simp
next
  case (3 a)
  then have "a < 256" by simp
  then have "a div 4 < 64" by (simp add: div_bound)
  moreover have "a mod 4 < 4" by simp
  ultimately have "a div 4 < 64" "a mod 4 * 16 < 64" by linarith+
  then show ?case by simp
next
  case 4
  then show ?case by simp
qed

lemma octets_sextets: "\<forall>x\<in>set xs. x < 256 \<Longrightarrow> octets (sextets xs) = xs"
proof (induction xs rule: sextets.induct)
  case (1 a b c rest)
  have "b < 256" "c < 256" using "1.prems" by simp_all
  then have b: "b div 16 < 16" and c: "c div 64 < 4" by (simp_all add: div_bound)
  have "a div 4 * 4 + (a mod 4 * 16 + b div 16) div 16 = a"
    using pack_div [OF b, of "a mod 4"] by simp
  moreover have "(a mod 4 * 16 + b div 16) mod 16 * 16 + (b mod 16 * 4 + c div 64) div 4 = b"
    using pack_mod [OF b, of "a mod 4"] pack_div [OF c, of "b mod 16"] by simp
  moreover have "(b mod 16 * 4 + c div 64) mod 4 * 64 + c mod 64 = c"
    using pack_mod [OF c, of "b mod 16"] by simp
  moreover have "octets (sextets rest) = rest" using 1 by simp
  ultimately show ?case by simp
next
  case (2 a b)
  then have "b < 256" by simp
  then have b: "b div 16 < 16" by (simp add: div_bound)
  have "a div 4 * 4 + (a mod 4 * 16 + b div 16) div 16 = a"
    using pack_div [OF b, of "a mod 4"] by simp
  moreover have "(a mod 4 * 16 + b div 16) mod 16 * 16 + (b mod 16 * 4) div 4 = b"
    using pack_mod [OF b, of "a mod 4"] by simp
  ultimately show ?case by simp
next
  case (3 a)
  have "a div 4 * 4 + (a mod 4 * 16) div 16 = a" by simp
  then show ?case by simp
next
  case 4
  then show ?case by simp
qed

lemma unat_byte: "unat (b :: byte) < 256"
  using unsigned_less [of b, where 'a = nat] by simp

lemma enc6_code:
  "n < 64 \<Longrightarrow> (of_char (enc6 n) :: nat) =
     (if n < 26 then 65 + n else if n < 52 then 71 + n else if n < 62 then n - 4
      else if n = 62 then 43 else 47)"
  by (simp add: enc6_def)

lemma dec6_enc6: "n < 64 \<Longrightarrow> dec6 (enc6 n) = Some n"
  unfolding dec6_def Let_def by (simp only: enc6_code) auto

lemma enc6_not_space: "n < 64 \<Longrightarrow> \<not> ascii_whitespace (enc6 n)"
  unfolding ascii_whitespace_def by (simp only: enc6_code) auto

lemma enc6_not_pad: "n < 64 \<Longrightarrow> enc6 n \<noteq> CHR ''=''"
proof
  assume n: "n < 64" and "enc6 n = CHR ''=''"
  then have "(of_char (enc6 n) :: nat) = of_char (CHR ''='')" by simp
  then show False using n by (simp only: enc6_code) (auto split: if_splits)
qed

lemma enc6_not_comma: "n < 64 \<Longrightarrow> enc6 n \<noteq> CHR '',''"
proof
  assume n: "n < 64" and "enc6 n = CHR '',''"
  then have "(of_char (enc6 n) :: nat) = of_char (CHR '','')" by simp
  then show False using n by (simp only: enc6_code) (auto split: if_splits)
qed

lemma those_dec6_enc6:
  "\<forall>s\<in>set sx. s < 64 \<Longrightarrow> those (map dec6 (map enc6 sx)) = Some sx"
  by (induction sx) (simp_all add: dec6_enc6)

lemma length_sextets:
  "(length (sextets xs) + (3 - length xs mod 3) mod 3) mod 4 = 0 \<and>
   length (sextets xs) mod 4 \<noteq> 1"
proof (induction xs rule: sextets.induct)
  case (1 a b c rest)
  have "Suc (Suc (Suc (length rest))) mod 3 = length rest mod 3"
    by presburger
  moreover have "Suc (Suc (Suc (Suc (length (sextets rest))))) mod 4 = length (sextets rest) mod 4"
    by presburger
  moreover have "Suc (Suc (Suc (Suc (length (sextets rest) + k)))) mod 4 = (length (sextets rest) + k) mod 4" for k
    by presburger
  ultimately show ?case using 1 by simp
qed simp_all

lemma strip_padding_encoded:
  assumes "\<forall>s\<in>set sx. s < 64" and "p \<le> 2"
  shows "strip_padding (map enc6 sx @ replicate p (CHR ''='')) = map enc6 sx"
proof -
  have last_ok: "rev (map enc6 sx) = [] \<or> (\<exists>y r. rev (map enc6 sx) = y # r \<and> y \<noteq> CHR ''='')"
  proof (cases "rev sx")
    case Nil
    then show ?thesis by simp
  next
    case (Cons z zs)
    then have "z \<in> set sx" by (metis list.set_intros(1) set_rev)
    then have "enc6 z \<noteq> CHR ''=''" using assms(1) enc6_not_pad by blast
    moreover have "rev (map enc6 sx) = enc6 z # map enc6 zs"
      using Cons by (simp add: rev_map)
    ultimately show ?thesis by blast
  qed
  consider "p = 0" | "p = 1" | "p = 2" using assms(2) by linarith
  then show ?thesis
  proof cases
    case 1
    from last_ok show ?thesis
    proof
      assume "rev (map enc6 sx) = []"
      then show ?thesis using 1 by (simp add: strip_padding_def)
    next
      assume "\<exists>y r. rev (map enc6 sx) = y # r \<and> y \<noteq> CHR ''=''"
      then obtain y r where "rev (map enc6 sx) = y # r" "y \<noteq> CHR ''=''" by blast
      then show ?thesis using 1 by (cases r) (simp_all add: strip_padding_def)
    qed
  next
    case 2
    from last_ok show ?thesis
    proof
      assume "rev (map enc6 sx) = []"
      then show ?thesis using 2 by (simp add: strip_padding_def)
    next
      assume "\<exists>y r. rev (map enc6 sx) = y # r \<and> y \<noteq> CHR ''=''"
      then obtain y r where yr: "rev (map enc6 sx) = y # r" "y \<noteq> CHR ''=''" by blast
      have rv: "rev (map enc6 sx @ replicate p (CHR ''='')) = CHR ''='' # y # r"
        using 2 yr by simp
      have "strip_padding (map enc6 sx @ replicate p (CHR ''='')) = rev (y # r)"
        unfolding strip_padding_def rv using yr(2) by simp
      also have "rev (y # r) = rev (rev (map enc6 sx))"
        by (simp only: yr(1))
      finally show ?thesis by simp
    qed
  next
    case 3
    have "rev (rev (map enc6 sx)) = map enc6 sx" by simp
    then show ?thesis using 3 by (simp add: strip_padding_def numeral_2_eq_2)
  qed
qed

lemma filter_encoded:
  assumes "\<forall>s\<in>set sx. s < 64"
  shows "filter (\<lambda>c. \<not> ascii_whitespace c) (map enc6 sx @ replicate p (CHR ''=''))
         = map enc6 sx @ replicate p (CHR ''='')"
proof -
  have "\<not> ascii_whitespace (CHR ''='')" by (simp add: ascii_whitespace_def)
  then show ?thesis using assms by (auto simp: filter_id_conv enc6_not_space)
qed

lemma atob_base64_encode: "atob (base64_encode bs) = Inr (map unat bs)"
proof -
  define xs where "xs = map unat bs"
  define sx where "sx = sextets xs"
  define p where "p = (3 - length bs mod 3) mod 3"
  define enc where "enc = map enc6 sx @ replicate p (CHR ''='')"
  have bytes: "\<forall>x\<in>set xs. x < 256"
    unfolding xs_def using unat_byte by auto
  have sx: "\<forall>s\<in>set sx. s < 64"
    unfolding sx_def using sextets_lt [OF bytes] .
  have "p < 3" unfolding p_def by simp
  then have p: "p \<le> 2" by linarith
  have e: "base64_encode bs = enc"
    by (simp add: base64_encode_def sx_def xs_def p_def enc_def)
  have f: "filter (\<lambda>c. \<not> ascii_whitespace c) enc = enc"
    unfolding enc_def by (rule filter_encoded [OF sx])
  have len: "length enc mod 4 = 0"
    using length_sextets [of xs] by (simp add: sx_def p_def xs_def enc_def)
  have len1: "length (map enc6 sx) mod 4 \<noteq> 1"
    using length_sextets [of xs] by (simp add: sx_def)
  have st: "strip_padding enc = map enc6 sx"
    unfolding enc_def by (rule strip_padding_encoded [OF sx p])
  have th: "those (map dec6 (map enc6 sx)) = Some sx"
    by (rule those_dec6_enc6 [OF sx])
  have oc: "octets sx = xs"
    unfolding sx_def by (rule octets_sextets [OF bytes])
  have "atob enc = Inr xs"
    unfolding atob_def Let_def f using len len1 by (simp add: st th [unfolded map_map] oc)
  then show ?thesis by (simp only: e xs_def)
qed

lemma decode_base64_encode: "decode (base64_encode bs) = Inr bs"
  by (simp add: decode_def atob_base64_encode comp_def)

lemma split_str_no_sep: "sep \<notin> set s \<Longrightarrow> split_str sep s = [s]"
  by (induction s) auto

lemma split_str_first:
  "sep \<notin> set p \<Longrightarrow> split_str sep (p @ sep # s) = p # split_str sep s"
  by (induction p) auto

lemma base64_encode_no_comma: "CHR '','' \<notin> set (base64_encode bs)"
proof
  assume "CHR '','' \<in> set (base64_encode bs)"
  then consider "CHR '','' \<in> enc6 ` set (sextets (map unat bs))"
    | "CHR '','' \<in> set (replicate ((3 - length bs mod 3) mod 3) (CHR ''=''))"
    by (auto simp: base64_encode_def)
  then show False
  proof cases
    case 1
    then obtain s where s: "s \<in> set (sextets (map unat bs))" "enc6 s = CHR '',''"
      by auto
    have "\<forall>x\<in>set (map unat bs). x < 256" using unat_byte by auto
    then have "s < 64" using sextets_lt s(1) by blast
    then show False using enc6_not_comma s(2) by blast
  next
    case 2
    then show False by simp
  qed
qed

text \<open>
  Claim C4.  For every byte buffer, the empty one included, held in a blob whose MIME
  type has no comma (the recorder's blobs are \<^verbatim>\<open>audio/webm\<close>), \<open>blobToBase64\<close>
  with a reader that follows the File API resolves with a text that \<open>decode\<close>
  turns back into exactly the bytes of the blob: the transfer encoding loses nothing.
\<close>

theorem blobToBase64_decode_roundtrip:
  assumes "CHR '','' \<notin> set (mime blob)"
  shows "\<exists>base64Data. blobToBase64 FileReader blob = Inr (Some base64Data) \<and>
           decode base64Data = Inr (bytes blob)"
proof -
  define ty where "ty = (if mime blob = [] then ''application/octet-stream'' else mime blob)"
  define pre where "pre = ''data:'' @ ty @ '';base64''"
  have "CHR '','' \<notin> set ty"
    using assms by (simp add: ty_def)
  then have pre: "CHR '','' \<notin> set pre"
    by (simp add: pre_def)
  have url: "readAsDataURL blob = pre @ CHR '','' # base64_encode (bytes blob)"
    by (simp add: readAsDataURL_def pre_def ty_def)
  have "split_str (CHR '','') (readAsDataURL blob) = pre # split_str (CHR '','') (base64_encode (bytes blob))"
    unfolding url by (rule split_str_first [OF pre])
  also have "split_str (CHR '','') (base64_encode (bytes blob)) = [base64_encode (bytes blob)]"
    by (rule split_str_no_sep [OF base64_encode_no_comma])
  finally have "blobToBase64 FileReader blob = Inr (Some (base64_encode (bytes blob)))"
    by (simp add: blobToBase64_def FileReader_def)
  then show ?thesis using decode_base64_encode by blast
qed

theorem blobToBase64_decode_roundtrip_witness:
  "CHR '','' \<notin> set (mime \<lparr>bytes = [], mime = ''audio/webm''\<rparr>) \<and>
   (\<exists>base64Data.
      blobToBase64 FileReader \<lparr>bytes = [], mime = ''audio/webm''\<rparr> = Inr (Some base64Data) \<and>
      decode base64Data = Inr (bytes \<lparr>bytes = [], mime = ''audio/webm''\<rparr>))"
  using blobToBase64_decode_roundtrip [of "\<lparr>bytes = [], mime = ''audio/webm''\<rparr>"]
  by simp

section \<open>The decoding loops, characterised\<close>

declare fill_frames.simps [simp del] fill_channels.simps [simp del]

lemma length_fill_frames:
  "length (fill_frames d n fc c i cd) = length cd"
proof (induction d n fc c i cd rule: fill_frames.induct)
  case (1 d n fc c i cd)
  then show ?case
    by (subst fill_frames.simps) simp
qed

lemma nth_fill_frames:
  "j < length cd \<Longrightarrow>
   fill_frames d n fc c i cd ! j =
     (if i \<le> j \<and> real j < fc then real_of_int (sint (d ! (j * n + c))) / 32768 else cd ! j)"
proof (induction d n fc c i cd rule: fill_frames.induct)
  case (1 d n fc c i cd)
  show ?case
  proof (cases "real i < fc")
    case True
    let ?cd = "if i < length cd then cd[i := real_of_int (sint (d ! (i * n + c))) / 32768] else cd"
    have len: "j < length ?cd" using "1.prems" by simp
    have step: "fill_frames d n fc c i cd = fill_frames d n fc c (Suc i) ?cd"
      using True by (subst fill_frames.simps) simp
    show ?thesis
      unfolding step using "1.IH" [OF True len] "1.prems" True
      by (auto simp: nth_list_update less_Suc_eq_le)
  next
    case False
    then have "fill_frames d n fc c i cd = cd"
      by (subst fill_frames.simps) simp
    moreover have "\<not> (i \<le> j \<and> real j < fc)" using False by auto
    ultimately show ?thesis by auto
  qed
qed

lemma fill_channels_fields:
  "numberOfChannels (fill_channels d n fc c b) = numberOfChannels b \<and>
   frames (fill_channels d n fc c b) = frames b \<and>
   bufferRate (fill_channels d n fc c b) = bufferRate b \<and>
   length (channelData (fill_channels d n fc c b)) = length (channelData b)"
proof (induction d n fc c b rule: fill_channels.induct)
  case (1 d n fc c b)
  show ?case
  proof (cases "c < n")
    case True
    have "fill_channels d n fc c b =
          fill_channels d n fc (Suc c)
            (b\<lparr>channelData := (channelData b)[c := fill_frames d n fc c 0 (channelData b ! c)]\<rparr>)"
      using True by (subst fill_channels.simps) simp
    then show ?thesis using "1.IH" [OF True] by simp
  next
    case False
    then have "fill_channels d n fc c b = b"
      by (subst fill_channels.simps) simp
    then show ?thesis by simp
  qed
qed

lemma nth_fill_channels:
  "k < length (channelData b) \<Longrightarrow>
   channelData (fill_channels d n fc c b) ! k =
     (if c \<le> k \<and> k < n then fill_frames d n fc k 0 (channelData b ! k) else channelData b ! k)"
proof (induction d n fc c b rule: fill_channels.induct)
  case (1 d n fc c b)
  show ?case
  proof (cases "c < n")
    case True
    let ?b = "b\<lparr>channelData := (channelData b)[c := fill_frames d n fc c 0 (channelData b ! c)]\<rparr>"
    have step: "fill_channels d n fc c b = fill_channels d n fc (Suc c) ?b"
      using True by (subst fill_channels.simps) simp
    have len: "k < length (channelData ?b)" using "1.prems" by simp
    show ?thesis
      unfolding step using "1.IH" [OF True len] "1.prems" True
      by (cases "k = c") (auto simp: nth_list_update)
  next
    case False
    then have "fill_channels d n fc c b = b"
      by (subst fill_channels.simps) simp
    then show ?thesis using False by auto
  qed
qed

lemma sample_range:
  "- 1 \<le> real_of_int (sint (w :: 16 word)) / 32768 \<and> real_of_int (sint w) / 32768 \<le> 1"
proof -
  have "- (2 ^ (LENGTH(16) - 1)) \<le> sint w" by (rule sint_ge)
  moreover have "sint w < 2 ^ (LENGTH(16) - 1)" by (rule sint_lt)
  ultimately have "- 32768 \<le> sint w" "sint w < 32768" by simp_all
  then have "- 32768 \<le> real_of_int (sint w)" "real_of_int (sint w) \<le> 32768"
    by linarith+
  then show ?thesis by (simp del: of_int_sint)
qed

text \<open>
  Claim C3, as amended.  For every non-empty byte buffer of even length whose 16-bit
  sample count is divisible by the channel count, with a channel count and a positive
  sample rate that the audio context supports, \<open>decodeAudioData\<close> returns a buffer
  with \<open>numChannels\<close> channels of \<open>byteLength / 2 / numChannels\<close> frames each, in
  which the sample of channel \<open>c\<close> at frame \<open>i\<close> is the little-endian signed
  16-bit integer at index \<open>i * numChannels + c\<close> divided by 32768, a value between
  \<open>-1\<close> and \<open>1\<close>.
\<close>

theorem decodeAudioData_success:
  assumes ne: "data \<noteq> []" and ev: "even (length data)"
    and dv: "numChannels dvd length data div 2"
    and ch: "numChannels \<le> maxChannels ctx"
    and sr: "0 < sampleRate"
    and lo: "minSampleRate ctx \<le> sampleRate" and hi: "sampleRate \<le> maxSampleRate ctx"
  shows "\<exists>buffer. decodeAudioData data ctx sampleRate numChannels = Inr buffer \<and>
     numberOfChannels buffer = numChannels \<and>
     frames buffer = length data div 2 div numChannels \<and>
     length (channelData buffer) = numChannels \<and>
     (\<forall>c<numChannels.
        length (channelData buffer ! c) = length data div 2 div numChannels \<and>
        (\<forall>i<length data div 2 div numChannels.
           channelData buffer ! c ! i =
             real_of_int (sint (word_cat (data ! (2 * (i * numChannels + c) + 1))
                                         (data ! (2 * (i * numChannels + c))) :: 16 word)) / 32768 \<and>
           - 1 \<le> channelData buffer ! c ! i \<and> channelData buffer ! c ! i \<le> 1))"
proof -
  define n16 where "n16 = length data div 2"
  define fr where "fr = n16 div numChannels"
  define d16 where "d16 = map (\<lambda>k. word_cat (data ! (2 * k + 1)) (data ! (2 * k)) :: 16 word) [0..<n16]"
  define b0 where "b0 = \<lparr>numberOfChannels = numChannels, frames = fr, bufferRate = sampleRate,
                channelData = replicate numChannels (replicate fr (0::real))\<rparr>"
  have n16_pos: "0 < n16"
    using ne ev unfolding n16_def by (cases data) (auto elim: evenE)
  have ch_pos: "0 < numChannels"
    using dv n16_pos unfolding n16_def [symmetric] by (auto intro: Nat.gr0I)
  have fr_pos: "0 < fr"
    using dv n16_pos ch_pos unfolding n16_def [symmetric] fr_def
    by (auto elim!: dvdE)
  have prod: "fr * numChannels = n16"
    using dv unfolding n16_def [symmetric] fr_def by simp
  have view: "Int16Array data = Inr d16"
    using ev by (simp add: Int16Array_def d16_def n16_def)
  have len16: "length d16 = n16" by (simp add: d16_def)
  have fc: "real n16 / real numChannels = real fr"
    using dv unfolding n16_def [symmetric] fr_def by (simp add: real_of_nat_div)
  have cb: "createBuffer ctx numChannels (real fr) sampleRate = Inr b0"
    using ch_pos fr_pos sr ch lo hi by (simp add: createBuffer_def b0_def Let_def)
  have res: "decodeAudioData data ctx sampleRate numChannels =
               Inr (fill_channels d16 numChannels (real fr) 0 b0)"
    by (simp add: decodeAudioData_def view len16 fc cb Let_def)
  let ?buf = "fill_channels d16 numChannels (real fr) 0 b0"
  have fields: "numberOfChannels ?buf = numChannels" "frames ?buf = fr"
    "length (channelData ?buf) = numChannels"
    using fill_channels_fields [of d16 numChannels "real fr" 0 b0] by (simp_all add: b0_def)
  have chan: "channelData ?buf ! c = fill_frames d16 numChannels (real fr) c 0 (replicate fr 0)"
    if "c < numChannels" for c
    using that nth_fill_channels [of c b0 d16 numChannels "real fr" 0] by (simp add: b0_def)
  have sample: "channelData ?buf ! c ! i =
      real_of_int (sint (word_cat (data ! (2 * (i * numChannels + c) + 1))
                                  (data ! (2 * (i * numChannels + c))) :: 16 word)) / 32768"
    if c: "c < numChannels" and i: "i < fr" for c i
  proof -
    have "i * numChannels + c < Suc i * numChannels" using c by simp
    also have "\<dots> \<le> fr * numChannels" using i by (simp add: Suc_leI mult_le_mono1 del: mult_Suc)
    finally have idx: "i * numChannels + c < n16" using prod by simp
    have "channelData ?buf ! c ! i = real_of_int (sint (d16 ! (i * numChannels + c))) / 32768"
      using chan [OF c] nth_fill_frames [of i "replicate fr 0" d16 numChannels "real fr" c 0] i
      by simp
    also have "d16 ! (i * numChannels + c) =
        word_cat (data ! (2 * (i * numChannels + c) + 1)) (data ! (2 * (i * numChannels + c)))"
      using idx by (simp add: d16_def)
    finally show ?thesis .
  qed
  have lens: "length (channelData ?buf ! c) = fr" if "c < numChannels" for c
    using chan [OF that] by (simp add: length_fill_frames)
  have all: "length (channelData ?buf ! c) = fr \<and>
        (\<forall>i<fr. channelData ?buf ! c ! i =
             real_of_int (sint (word_cat (data ! (2 * (i * numChannels + c) + 1))
                                         (data ! (2 * (i * numChannels + c))) :: 16 word)) / 32768 \<and>
           - 1 \<le> channelData ?buf ! c ! i \<and> channelData ?buf ! c ! i \<le> 1)"
    if c: "c < numChannels" for c
  proof (intro conjI allI impI)
    show "length (channelData ?buf ! c) = fr" by (rule lens [OF c])
  next
    fix i assume i: "i < fr"
    show "channelData ?buf ! c ! i =
             real_of_int (sint (word_cat (data ! (2 * (i * numChannels + c) + 1))
                                         (data ! (2 * (i * numChannels + c))) :: 16 word)) / 32768"
      by (rule sample [OF c i])
    show "- 1 \<le> channelData ?buf ! c ! i"
      unfolding sample [OF c i] using sample_range by blast
    show "channelData ?buf ! c ! i \<le> 1"
      unfolding sample [OF c i] using sample_range by blast
  qed
  show ?thesis
    unfolding res n16_def [symmetric] fr_def [symmetric]
    using fields all by (intro exI [of _ ?buf]) blast
qed

theorem decodeAudioData_success_witness:
  "[0, 0x80, 0xFF, 0x7F :: byte] \<noteq> [] \<and> even (length [0, 0x80, 0xFF, 0x7F :: byte]) \<and>
   (1::nat) dvd length [0, 0x80, 0xFF, 0x7F :: byte] div 2 \<and>
   (1::nat) \<le> maxChannels standard_context \<and> (0::real) < 24000 \<and>
   minSampleRate standard_context \<le> 24000 \<and> 24000 \<le> maxSampleRate standard_context \<and>
   (\<exists>buffer. decodeAudioData [0, 0x80, 0xFF, 0x7F] standard_context 24000 1 = Inr buffer \<and>
      frames buffer = 2 \<and> channelData buffer ! 0 ! 0 = - 1 \<and>
      channelData buffer ! 0 ! 1 = 32767 / 32768)"
proof -
  let ?data = "[0, 0x80, 0xFF, 0x7F :: byte]"
  have h1: "?data \<noteq> []" and h2: "even (length ?data)"
    and h3: "(1::nat) dvd length ?data div 2"
    and h4: "(1::nat) \<le> maxChannels standard_context" and h5: "(0::real) < 24000"
    and h6: "minSampleRate standard_context \<le> 24000"
    and h7: "24000 \<le> maxSampleRate standard_context"
    by (simp_all add: standard_context_def)
  from decodeAudioData_success [OF h1 h2 h3 h4 h5 h6 h7] obtain buffer where
    b: "decodeAudioData ?data standard_context 24000 1 = Inr buffer"
       "frames buffer = length ?data div 2 div 1"
    and s: "\<forall>c<1. \<forall>i<length ?data div 2 div 1.
           channelData buffer ! c ! i =
             real_of_int (sint (word_cat (?data ! (2 * (i * 1 + c) + 1))
                                         (?data ! (2 * (i * 1 + c))) :: 16 word)) / 32768"
    by blast
  have "channelData buffer ! 0 ! 0 = - 1"
    using s [rule_format, of 0 0] by (simp add: word_cat_eq)
  moreover have "channelData buffer ! 0 ! 1 = 32767 / 32768"
    using s [rule_format, of 0 1] by (simp add: word_cat_eq)
  ultimately show ?thesis using b h4 h6 h7 by simp
qed

text \<open>
  The empty buffer has even length and a sample count (zero) that every channel count
  divides, yet decoding it fails, here at 24 kHz, mono: \<^verbatim>\<open>createBuffer\<close> refuses a
  length of zero frames.
\<close>

theorem decodeAudioData_empty_counterexample:
  "even (length ([] :: byte list)) \<and> 1 dvd length ([] :: byte list) div 2 \<and>
   decodeAudioData [] standard_context 24000 1 = Inl NotSupportedError"
  by (simp add: decodeAudioData_def Int16Array_def createBuffer_def)

text \<open>
  The empty buffer reaches the decoding: a payload of two spaces is not empty, so it
  passes the guard of \<open>playEloquenceTTS\<close>, and \<open>decode\<close> turns it into no bytes.
\<close>

lemma playEloquenceTTS_blank_payload:
  "playEloquenceTTS (\<lambda>t. Inr (Some ''  '')) standard_context text = Inl NotSupportedError"
proof -
  have "decode ''  '' = Inr []"
    by (simp add: decode_def atob_def ascii_whitespace_def strip_padding_def)
  then show ?thesis
    by (simp add: playEloquenceTTS_def new_AudioContext_def standard_context_def
          decodeAudioData_def Int16Array_def createBuffer_def)
qed

text \<open>
  Claim C10.  For every byte buffer of odd length the \<^verbatim>\<open>Int16Array\<close> view
  cannot be constructed (it throws a \<^verbatim>\<open>RangeError\<close>), and the decode step
  fails with that error whatever the audio context, the sample rate and the channel
  count: decoding succeeds only on buffers whose byte length is a multiple of 2.
\<close>

theorem decodeAudioData_odd_length_fails:
  "odd (length data) \<Longrightarrow>
   Int16Array data = Inl RangeError \<and>
   decodeAudioData data ctx sampleRate numChannels = Inl RangeError"
  by (simp add: Int16Array_def decodeAudioData_def odd_iff_mod_2_eq_one)

theorem decodeAudioData_odd_length_fails_witness:
  "odd (length [1 :: byte]) \<and> Int16Array [1] = Inl RangeError \<and>
   decodeAudioData [1] standard_context 24000 1 = Inl RangeError"
  using decodeAudioData_odd_length_fails [of "[1]" standard_context 24000 1] by simp

section \<open>Entry analysis and the entry store\<close>

lemma processAudioEntry_failures:
  "remote a m = Inl e \<Longrightarrow> processAudioEntry remote parse a m = Inl e"
  "remote a m = Inr None \<Longrightarrow> processAudioEntry remote parse a m = Inl NoResponse"
  "remote a m = Inr (Some []) \<Longrightarrow> processAudioEntry remote parse a m = Inl NoResponse"
  "remote a m = Inr (Some t) \<Longrightarrow> t \<noteq> [] \<Longrightarrow> parse t = None \<Longrightarrow>
     processAudioEntry remote parse a m = Inl SyntaxError"
  "remote a m = Inr (Some t) \<Longrightarrow> t \<noteq> [] \<Longrightarrow> parse t = Some JNull \<Longrightarrow>
     processAudioEntry remote parse a m = Inl TypeError"
  by (simp_all add: processAudioEntry_def)

text \<open>
  Claim C1, as amended.  For every non-empty payload that \<^verbatim>\<open>JSON.parse\<close> turns
  into an object, \<open>processAudioEntry\<close> does not fail, whichever required fields
  the object lacks: it returns \<open>transcription\<close> and an \<open>analysis\<close> of seven
  fields, each read from the payload as it is, a missing one as \<^verbatim>\<open>undefined\<close>.
  The sub-fields of \<open>metrics\<close> and \<open>eloquenceTip\<close> are not looked at.
\<close>

theorem processAudioEntry_passes_through:
  assumes "remote audio mimeType = Inr (Some resultText)"
    and "resultText \<noteq> []"
    and "parse resultText = Some (JObj payload)"
  shows "processAudioEntry remote parse audio mimeType =
     Inr [(''transcription'', field payload ''transcription''),
          (''analysis'',
           JObj [(''summary'', field payload ''summary''),
                 (''mood'', field payload ''mood''),
                 (''tags'', field payload ''tags''),
                 (''metrics'', field payload ''metrics''),
                 (''deepAnalysis'', field payload ''deepAnalysis''),
                 (''suggestions'', field payload ''suggestions''),
                 (''eloquenceTip'', field payload ''eloquenceTip'')])]"
  using assms by (simp add: processAudioEntry_def)

theorem processAudioEntry_passes_through_witness:
  "answers_empty_object (Some ''AAAA'') ''audio/webm'' = Inr (Some ''{}'') \<and> ''{}'' \<noteq> [] \<and>
   parses_empty_object ''{}'' = Some (JObj []) \<and>
   processAudioEntry answers_empty_object parses_empty_object (Some ''AAAA'') ''audio/webm'' =
     Inr [(''transcription'', field [] ''transcription''),
          (''analysis'',
           JObj [(''summary'', field [] ''summary''),
                 (''mood'', field [] ''mood''),
                 (''tags'', field [] ''tags''),
                 (''metrics'', field [] ''metrics''),
                 (''deepAnalysis'', field [] ''deepAnalysis''),
                 (''suggestions'', field [] ''suggestions''),
                 (''eloquenceTip'', field [] ''eloquenceTip'')])]"
proof -
  have a: "answers_empty_object (Some ''AAAA'') ''audio/webm'' = Inr (Some ''{}'')"
    by (simp add: answers_empty_object_def)
  have b: "''{}'' \<noteq> []" by simp
  have c: "parses_empty_object ''{}'' = Some (JObj [])"
    by (simp add: parses_empty_object_def)
  show ?thesis
    using a b c
      processAudioEntry_passes_through
        [where remote = answers_empty_object and parse = parses_empty_object
           and audio = "Some ''AAAA''" and mimeType = "''audio/webm''"
           and resultText = "''{}''" and payload = "[]", OF a b c]
    by simp
qed

text \<open>
  The payload \<^verbatim>\<open>{}\<close> parses as JSON and has none of the required fields; the
  call returns a result in which every field is \<^verbatim>\<open>undefined\<close>, and raises
  nothing.
\<close>

theorem processAudioEntry_missing_fields_counterexample:
  "processAudioEntry answers_empty_object parses_empty_object (Some ''AAAA'') ''audio/webm'' =
     Inr [(''transcription'', JUndefined),
          (''analysis'',
           JObj [(''summary'', JUndefined), (''mood'', JUndefined), (''tags'', JUndefined),
                 (''metrics'', JUndefined), (''deepAnalysis'', JUndefined),
                 (''suggestions'', JUndefined), (''eloquenceTip'', JUndefined)])]"
  by (simp add: processAudioEntry_def answers_empty_object_def parses_empty_object_def field_def)

text \<open>
  Claim C2.  Whenever the encoding fails (the reader rejects) or \<open>processAudioEntry\<close>
  fails (the remote call rejects, or the response is refused), the run of
  \<open>handleRecordingComplete\<close> leaves the entries exactly as they were; the selected
  entry and the view are unchanged too, the processing flag is cleared and one failure
  is reported.
\<close>

theorem handleRecordingComplete_failure_keeps_entries:
  assumes "(\<exists>e. blobToBase64 (readBlob p) audioBlob = Inl e) \<or>
           (\<exists>base64Audio e.
              blobToBase64 (readBlob p) audioBlob = Inr base64Audio \<and>
              processAudioEntry (generateContent p) (JSON_parse p) base64Audio
                (if mime audioBlob = [] then ''audio/webm'' else mime audioBlob) = Inl e)"
  shows "entries (handleRecordingComplete p audioBlob s) = entries s \<and>
         selectedEntry (handleRecordingComplete p audioBlob s) = selectedEntry s \<and>
         view (handleRecordingComplete p audioBlob s) = view s \<and>
         \<not> isProcessing (handleRecordingComplete p audioBlob s) \<and>
         length (failures (handleRecordingComplete p audioBlob s)) = Suc (length (failures s))"
  using assms by (auto simp: handleRecordingComplete_def Let_def)

theorem handleRecordingComplete_failure_keeps_entries_witness:
  "blobToBase64 (readBlob offline) \<lparr>bytes = [1, 2], mime = ''audio/webm''\<rparr> = Inr (Some ''AQI='') \<and>
   processAudioEntry (generateContent offline) (JSON_parse offline) (Some ''AQI='') ''audio/webm''
     = Inl TransportFailure \<and>
   entries (handleRecordingComplete offline \<lparr>bytes = [1, 2], mime = ''audio/webm''\<rparr>
              \<lparr>view = HOME, entries = [[(''id'', JStr ''1'')]], selectedEntry = None,
               isProcessing = False, failures = []\<rparr>)
     = [[(''id'', JStr ''1'')]] \<and>
   \<not> isProcessing (handleRecordingComplete offline \<lparr>bytes = [1, 2], mime = ''audio/webm''\<rparr>
              \<lparr>view = HOME, entries = [[(''id'', JStr ''1'')]], selectedEntry = None,
               isProcessing = False, failures = []\<rparr>)"
proof -
  let ?blob = "\<lparr>bytes = [1, 2], mime = ''audio/webm''\<rparr>"
  let ?s = "\<lparr>view = HOME, entries = [[(''id'', JStr ''1'')]], selectedEntry = None,
             isProcessing = False, failures = []\<rparr>"
  have enc: "blobToBase64 (readBlob offline) ?blob = Inr (Some ''AQI='')"
    by code_simp
  have fail: "processAudioEntry (generateContent offline) (JSON_parse offline) (Some ''AQI='')
                (if mime ?blob = [] then ''audio/webm'' else mime ?blob) = Inl TransportFailure"
    by (simp add: offline_def processAudioEntry_def unreachable_def)
  have "(\<exists>e. blobToBase64 (readBlob offline) ?blob = Inl e) \<or>
        (\<exists>base64Audio e.
           blobToBase64 (readBlob offline) ?blob = Inr base64Audio \<and>
           processAudioEntry (generateContent offline) (JSON_parse offline) base64Audio
             (if mime ?blob = [] then ''audio/webm'' else mime ?blob) = Inl e)"
    using enc fail by blast
  from handleRecordingComplete_failure_keeps_entries [OF this, of ?s] enc fail
  show ?thesis by simp
qed

lemma map_of_rest_without_audioUrl:
  "map_of (rest_without_audioUrl entry) k = (if k = ''audioUrl'' then None else map_of entry k)"
  unfolding rest_without_audioUrl_def by (induction entry) auto

text \<open>
  Claim C9.  For every list of entries, what the save effect writes under
  \<^verbatim>\<open>eloquent_journal_entries\<close> is the serialization of a list with one record per
  entry, in the same order, in which \<open>audioUrl\<close> is absent and every other field
  (\<open>id\<close>, \<open>date\<close>, \<open>transcription\<close>, \<open>analysis\<close>, \<open>isProcessing\<close>,
  \<open>exerciseFeedback\<close> and any other) reads as it does in the entry.
\<close>

theorem saveEntries_omits_audioUrl:
  "saveEntries JSON_stringify es localStorage ''eloquent_journal_entries'' =
     Some (JSON_stringify (JArr (map JObj (entriesToSave es)))) \<and>
   length (entriesToSave es) = length es \<and>
   (\<forall>i<length es.
      map_of (entriesToSave es ! i) ''audioUrl'' = None \<and>
      (\<forall>k. k \<noteq> ''audioUrl'' \<longrightarrow> field (entriesToSave es ! i) k = field (es ! i) k))"
  by (simp add: saveEntries_def entriesToSave_def map_of_rest_without_audioUrl field_def)

theorem saveEntries_omits_audioUrl_witness:
  "saveEntries stringify_brackets
     [[(''id'', JStr ''1''), (''audioUrl'', JStr ''blob:1''), (''isProcessing'', JBool False)]]
     Map.empty ''eloquent_journal_entries'' = Some ''[...]'' \<and>
   entriesToSave
     [[(''id'', JStr ''1''), (''audioUrl'', JStr ''blob:1''), (''isProcessing'', JBool False)]]
     = [[(''id'', JStr ''1''), (''isProcessing'', JBool False)]] \<and>
   field (entriesToSave
     [[(''id'', JStr ''1''), (''audioUrl'', JStr ''blob:1''), (''isProcessing'', JBool False)]] ! 0)
     ''isProcessing'' = JBool False"
  using saveEntries_omits_audioUrl
    [of stringify_brackets
        "[[(''id'', JStr ''1''), (''audioUrl'', JStr ''blob:1''), (''isProcessing'', JBool False)]]"
        Map.empty]
  by (simp add: entriesToSave_def rest_without_audioUrl_def stringify_brackets_def field_def)

section \<open>The recording component\<close>











text \<open>
  Claim C6, as amended.  When the microphone cannot be acquired, \<open>startRecording\<close>
  ends normally for its caller: the error is logged, the user is alerted, and nothing
  else of the component changes (it is not recording, and no recorder or timer is
  made).
\<close>

theorem startRecording_swallows_failure:
  "startRecording (Inl err) s = (Inr (), s\<lparr>logged := logged s @ [err], micAlerts := Suc (micAlerts s)\<rparr>)"
  by (simp add: startRecording_def)

text \<open>
  A denied permission on the freshly mounted component: the call returns normally, no
  failure reaches the caller, and the alert is the only trace.
\<close>

theorem startRecording_denied_counterexample:
  "fst (startRecording (Inl NotAllowedError) mounted) = Inr () \<and>
   fst (startRecording (Inl NotAllowedError) mounted) \<noteq> Inl NotAllowedError \<and>
   micAlerts (snd (startRecording (Inl NotAllowedError) mounted)) = 1"
  by (simp add: startRecording_def mounted_def)

text \<open>
  Claim C7 fails on the code.  Two clicks before the first \<^verbatim>\<open>getUserMedia\<close>
  settles both find \<open>isRecording\<close> false and both start a recording: two streams are
  live and two recorders run, of which the ref keeps the second.  Stopping stops the
  second only; the first stream stays live, out of the component's reach.
\<close>

theorem double_click_two_live_streams:
  "liveStreams (run [Click, Click, GrantMic, GrantMic] mounted) = [1, 0] \<and>
   recording (run [Click, Click, GrantMic, GrantMic] mounted) = [1, 0] \<and>
   mediaRecorderRef (run [Click, Click, GrantMic, GrantMic] mounted) = Some 1 \<and>
   liveStreams (run [Click, Click, GrantMic, GrantMic, Click, Stopped 1] mounted) = [0]"
  by (simp add: mounted_def startRecording_def stopRecording_def onstop_def)

section \<open>Playing a tip\<close>

declare digits.simps [simp del]

lemma button_id_not_empty: "button_id b \<noteq> []"
  by (cases b) simp_all

lemma tts_guarded_step: "tts_guarded s \<Longrightarrow> tts_guarded (tts_step ranges e s)"
proof (cases e)
  case (Press b)
  assume "tts_guarded s"
  then show ?thesis
    using Press button_id_not_empty [of b]
    by (auto simp: tts_guarded_def handlePlayTTS_def)
next
  case (Settle answer)
  assume "tts_guarded s"
  then show ?thesis
    using Settle
    by (cases "inFlight s")
       (auto simp: tts_guarded_def handlePlayTTS_settled_def Let_def split: sum.splits)
qed

lemma tts_guarded_run: "tts_guarded s \<Longrightarrow> tts_guarded (tts_run ranges es s)"
  by (induction es arbitrary: s) (simp_all add: tts_guarded_step)

text \<open>
  Claim C8.  In every state the component reaches from its opening, on any platform,
  through presses of the two kinds of button and settlings of requests, at most one
  synthesis request is
  in flight, one is in flight exactly when \<open>playingTTS\<close> is not null, and while it
  is not null a further call of \<open>handlePlayTTS\<close>, whatever its arguments, returns
  at once: the state is unchanged and no request is issued.
\<close>

theorem handlePlayTTS_single_flight:
  "length (inFlight (tts_run ranges es opened)) \<le> 1 \<and>
   (playingTTS (tts_run ranges es opened) \<noteq> None \<longleftrightarrow> inFlight (tts_run ranges es opened) \<noteq> []) \<and>
   (playingTTS (tts_run ranges es opened) \<noteq> None \<longrightarrow>
      handlePlayTTS text ident (tts_run ranges es opened) = tts_run ranges es opened)"
proof -
  have "tts_guarded opened" by (simp add: tts_guarded_def opened_def)
  then have "tts_guarded (tts_run ranges es opened)" by (rule tts_guarded_run)
  then show ?thesis
    by (cases "playingTTS (tts_run ranges es opened)") (auto simp: tts_guarded_def handlePlayTTS_def)
qed

theorem handlePlayTTS_single_flight_witness:
  "length (inFlight (tts_run standard_context [Press (Suggestion 0 ''Je suis convaincu.''),
                              Press (ExampleImproved ''Je reussirai.'')] opened)) \<le> 1 \<and>
   playingTTS (tts_run standard_context [Press (Suggestion 0 ''Je suis convaincu.''),
                        Press (ExampleImproved ''Je reussirai.'')] opened) \<noteq> None \<and>
   inFlight (tts_run standard_context [Press (Suggestion 0 ''Je suis convaincu.''),
                      Press (ExampleImproved ''Je reussirai.'')] opened) = [''Je suis convaincu.''] \<and>
   handlePlayTTS ''Je reussirai.'' ''improved''
     (tts_run standard_context [Press (Suggestion 0 ''Je suis convaincu.''),
               Press (ExampleImproved ''Je reussirai.'')] opened)
     = tts_run standard_context [Press (Suggestion 0 ''Je suis convaincu.''),
                Press (ExampleImproved ''Je reussirai.'')] opened"
  using handlePlayTTS_single_flight
    [of standard_context
        "[Press (Suggestion 0 ''Je suis convaincu.''), Press (ExampleImproved ''Je reussirai.'')]"
        "''Je reussirai.''" "''improved''"]
  by (simp add: opened_def handlePlayTTS_def)


end
